theory Spec2Isabelle
  imports Complex_Main "HOL-Library.Product_Lexorder"
begin

section \<open>QuestLog: gamification logic of \<open>app.py\<close>\<close>

text \<open>
  A shallow embedding of the service, repository and boss-arena code of \<open>src/app.py\<close>.
  Python integers are \<^typ>\<open>int\<close>; where the program computes with the \<open>numpy.int64\<close> that
  pandas returns, the 64-bit wrap-around is written out. The dictionaries that the program uses as records with a
  fixed key set (a task row, the boss, the session state, the save file) are records with
  one field per key. A pandas \<open>DataFrame\<close> of tasks is the list of its rows, the empty frame
  the empty list.
\<close>

subsection \<open>Configuration (\<open>GameConfig\<close>)\<close>

definition XP_PER_TASK :: int where
  "XP_PER_TASK = 50"

definition BOSS_DMG_PER_TASK :: int where
  "BOSS_DMG_PER_TASK = 10"

definition LEVEL_BASE_XP :: int where
  "LEVEL_BASE_XP = 500"

definition BOSS_BONUS_XP :: int where
  "BOSS_BONUS_XP = 500"

subsection \<open>Data model\<close>

text \<open>
  A calendar date is the triple (year, month, day) of a Python \<open>date\<close>; a time of day is
  (hour, minute, second) of a naive Python \<open>time\<close> without microseconds. Python compares
  dates by comparing these triples lexicographically, which is the order that
  \<open>Product_Lexorder\<close> puts on them.
\<close>

type_synonym date = "nat \<times> nat \<times> nat"

type_synonym time = "nat \<times> nat \<times> nat"

text \<open>
  A task row. The columns \<open>Date\<close>, \<open>Start\<close> and \<open>End\<close> hold \<open>date\<close> and \<open>time\<close> values in the
  session and ISO strings in a save file, so their types are parameters.
\<close>

record ('d, 't) task =
  Title :: string
  Description :: string
  Date :: 'd
  Start :: 't
  End :: 't
  Status :: bool
  Color :: string

type_synonym quest = "(date, time) task"

type_synonym json_task = "(string, string) task"

text \<open>
  The boss dictionary of the summon form (line 177): keys \<open>Name\<close>, \<open>MaxHP\<close>, \<open>CurrentHP\<close>
  and \<open>Image\<close>. The last field is called \<open>Image_icon\<close>, since \<open>Image\<close> is the relational
  image of HOL.
\<close>

record boss =
  Name :: string
  MaxHP :: int
  CurrentHP :: int
  Image_icon :: string

text \<open>\<open>st.session_state\<close>: the three keys set by \<open>initialize_session\<close>.\<close>

record session =
  tasks :: "quest list"
  boss_xp :: int
  active_boss :: "boss option"

subsection \<open>Exceptions and integer objects\<close>

text \<open>The exceptions that the modelled code can raise.\<close>

datatype py_error = ZeroDivisionError | StreamlitAPIException | OverflowError | TypeError

text \<open>
  An integer object is a Python \<open>int\<close>, which is unbounded, or a \<open>numpy.int64\<close>, which
  pandas returns from the sum of a column: a type and a value. Arithmetic of two Python
  ints is exact. As soon as one operand is a \<open>numpy.int64\<close> the other is converted to that
  type, which raises \<open>OverflowError\<close> for a Python int outside 64 bits, and the result is a
  \<open>numpy.int64\<close> that wraps around (the rules of NumPy 2).
\<close>

datatype int_type = PythonInt | NumpyInt64

type_synonym pynum = "int_type \<times> int"

definition wrap_int64 :: "int \<Rightarrow> int" where
  "wrap_int64 x = (x + 2 ^ 63) mod 2 ^ 64 - 2 ^ 63"

definition as_int64 :: "pynum \<Rightarrow> py_error + int" where
  "as_int64 n =
     (case n of
        (NumpyInt64, x) \<Rightarrow> Inr x
      | (PythonInt, x) \<Rightarrow>
          if - (2 ^ 63) \<le> x \<and> x < 2 ^ 63 then Inr x else Inl OverflowError)"

definition num_op :: "(int \<Rightarrow> int \<Rightarrow> int) \<Rightarrow> pynum \<Rightarrow> pynum \<Rightarrow> py_error + pynum" where
  "num_op f a b =
     (if fst a = PythonInt \<and> fst b = PythonInt then Inr (PythonInt, f (snd a) (snd b))
      else case as_int64 a of
             Inl e \<Rightarrow> Inl e
           | Inr x \<Rightarrow>
               (case as_int64 b of
                  Inl e \<Rightarrow> Inl e
                | Inr y \<Rightarrow> Inr (NumpyInt64, wrap_int64 (f x y))))"

text \<open>Sequencing: an exception ends the computation.\<close>

definition and_then :: "'e + 'a \<Rightarrow> ('a \<Rightarrow> 'e + 'b) \<Rightarrow> 'e + 'b" where
  "and_then r f = (case r of Inl e \<Rightarrow> Inl e | Inr x \<Rightarrow> f x)"

subsection \<open>\<open>GamificationService.calculate_stats\<close>\<close>

text \<open>
  The result dictionary, with the values of \<open>xp\<close> and \<open>level\<close>. \<open>progress\<close> is the
  quotient of two integers; the Python value is the float nearest to it, the model keeps
  the exact rational.
\<close>

record stats =
  xp :: int
  level :: int
  progress :: rat

text \<open>\<open>df['Status'].sum()\<close>: the sum of a boolean column, \<open>True\<close> counting 1.\<close>

definition status_sum :: "('d, 't) task list \<Rightarrow> int" where
  "status_sum df = sum_list (map (\<lambda>t. if Status t then 1 else 0) df)"

text \<open>
  On a frame with rows the count is the \<open>numpy.int64\<close> that pandas returns, so lines 36 to
  38 compute in 64 bits; on the empty frame it is the Python int 0 and they compute
  exactly. The bonus \<open>boss_xp\<close> is a Python int.
\<close>

definition calculate_stats :: "('d, 't) task list \<Rightarrow> int \<Rightarrow> py_error + stats" where
  "calculate_stats df bxp =
     (let completed_count =
            (if df \<noteq> [] then (NumpyInt64, wrap_int64 (status_sum df)) else (PythonInt, 0))
      in and_then (num_op (*) completed_count (PythonInt, XP_PER_TASK)) (\<lambda>task_xp.
         and_then (num_op (+) task_xp (PythonInt, bxp)) (\<lambda>current_xp.
         and_then (num_op (div) current_xp (PythonInt, LEVEL_BASE_XP)) (\<lambda>quotient.
         and_then (num_op (+) quotient (PythonInt, 1)) (\<lambda>lvl.
         and_then (num_op (mod) current_xp (PythonInt, LEVEL_BASE_XP)) (\<lambda>remainder.
           Inr \<lparr>xp = snd current_xp, level = snd lvl,
                progress = of_int (snd remainder) / of_int LEVEL_BASE_XP\<rparr>))))))"

subsection \<open>Calendar arithmetic of \<open>datetime.date\<close>\<close>

text \<open>
  \<open>calculate_streak\<close> subtracts dates and reads \<open>.days\<close> of the difference. Python computes
  that as the difference of the proleptic Gregorian ordinals of the two dates; the
  functions below follow the standard library's \<open>_is_leap\<close>, \<open>_days_before_year\<close>,
  \<open>_days_in_month\<close>, \<open>_days_before_month\<close> and \<open>_ymd2ord\<close>, with its two month tables
  (index 0 is a placeholder). A \<open>date\<close> object always satisfies \<open>valid_date\<close>, which is the
  check of its constructor.
\<close>

definition is_leap :: "nat \<Rightarrow> bool" where
  "is_leap year = (year mod 4 = 0 \<and> (year mod 100 \<noteq> 0 \<or> year mod 400 = 0))"

definition days_before_year :: "nat \<Rightarrow> int" where
  "days_before_year year =
     (let y = int year - 1 in y * 365 + y div 4 - y div 100 + y div 400)"

definition DAYS_IN_MONTH :: "int list" where
  "DAYS_IN_MONTH = [- 1, 31, 28, 31, 30, 31, 30, 31, 31, 30, 31, 30, 31]"

definition DAYS_BEFORE_MONTH :: "int list" where
  "DAYS_BEFORE_MONTH = [- 1, 0, 31, 59, 90, 120, 151, 181, 212, 243, 273, 304, 334]"

definition days_in_month :: "nat \<Rightarrow> nat \<Rightarrow> int" where
  "days_in_month year month =
     (if month = 2 \<and> is_leap year then 29 else DAYS_IN_MONTH ! month)"

definition days_before_month :: "nat \<Rightarrow> nat \<Rightarrow> int" where
  "days_before_month year month =
     DAYS_BEFORE_MONTH ! month + (if 2 < month \<and> is_leap year then 1 else 0)"

definition valid_date :: "date \<Rightarrow> bool" where
  "valid_date dt =
     (case dt of (year, month, day) \<Rightarrow>
        1 \<le> year \<and> year \<le> 9999 \<and> 1 \<le> month \<and> month \<le> 12
        \<and> 1 \<le> day \<and> int day \<le> days_in_month year month)"

definition toordinal :: "date \<Rightarrow> int" where
  "toordinal dt =
     (case dt of (year, month, day) \<Rightarrow>
        days_before_year year + days_before_month year month + int day)"

text \<open>\<open>(a - b).days\<close> for two dates.\<close>

definition days_between :: "date \<Rightarrow> date \<Rightarrow> int" where
  "days_between a b = toordinal a - toordinal b"

subsection \<open>\<open>GamificationService.calculate_streak\<close>\<close>

text \<open>
  Line 56: the distinct dates of the completed rows, sorted descending. On distinct values
  \<open>sorted(..., reverse=True)\<close> is the ascending sort reversed.
\<close>

definition sorted_dates :: "(date, 't) task list \<Rightarrow> date list" where
  "sorted_dates completed = rev (sort (remdups (map Date completed)))"

text \<open>
  The \<open>for\<close> loop of lines 67 to 72 over \<open>dates[1:]\<close>, with \<open>current_date\<close> and \<open>streak\<close> as
  loop state; \<open>break\<close> returns the count reached.
\<close>

fun streak_loop :: "date \<Rightarrow> date list \<Rightarrow> int \<Rightarrow> int" where
  "streak_loop current_date [] streak = streak"
| "streak_loop current_date (d # ds) streak =
     (if days_between current_date d = 1 then streak_loop d ds (streak + 1) else streak)"

text \<open>\<open>date.today()\<close> is read from the clock; the model takes it as the argument \<open>today\<close>.\<close>

definition calculate_streak :: "date \<Rightarrow> (date, 't) task list \<Rightarrow> int" where
  "calculate_streak today df =
     (if df = [] then 0
      else let completed = filter Status df
           in if completed = [] then 0
              else case sorted_dates completed of
                     [] \<Rightarrow> 0
                   | d0 # rest \<Rightarrow>
                       if 1 < days_between today d0 then 0
                       else streak_loop d0 rest 1)"

subsection \<open>\<open>BossManager.deal_damage\<close>\<close>

text \<open>
  The Python function updates the dictionary in place and returns that same dictionary
  with the damage; the model returns the updated record.
\<close>

definition deal_damage :: "boss \<Rightarrow> int \<Rightarrow> boss \<times> int" where
  "deal_damage b hit_count =
     (let damage = hit_count * BOSS_DMG_PER_TASK
      in (b\<lparr>CurrentHP := CurrentHP b - damage\<rparr>, damage))"

subsection \<open>\<open>UI.render_boss_arena\<close>\<close>

text \<open>Lines 208 to 213: the victory check on the boss read at the top of the function.\<close>

definition defeat_detection :: "session \<Rightarrow> boss \<Rightarrow> session" where
  "defeat_detection st b =
     (if CurrentHP b \<le> 0
      then st\<lparr>boss_xp := boss_xp st + BOSS_BONUS_XP, active_boss := None\<rparr>
      else st)"

text \<open>
  The whole function: nothing happens without a boss; the health bar divides by \<open>MaxHP\<close>
  and \<open>st.progress\<close> refuses a fraction above 1, both before the victory check. The
  quotient is taken exactly.
\<close>

definition render_boss_arena :: "session \<Rightarrow> py_error + session" where
  "render_boss_arena st =
     (case active_boss st of
        None \<Rightarrow> Inr st
      | Some b \<Rightarrow>
          if MaxHP b = 0 then Inl ZeroDivisionError
          else let hp_pct = max 0 (of_int (CurrentHP b) / of_int (MaxHP b) :: rat)
               in if 1 < hp_pct then Inl StreamlitAPIException
                  else Inr (defeat_detection st b))"

subsection \<open>ISO strings of dates and times\<close>

text \<open>
  \<open>DateEncoder\<close> writes a date or time with \<open>isoformat()\<close>, \<open>load_data\<close> reads it back with
  \<open>date.fromisoformat\<close> and \<open>time.fromisoformat\<close>. Both belong to the standard library; they
  are modelled on the persisted format, \<open>YYYY-MM-DD\<close> and \<open>HH:MM:SS\<close> with decimal digits,
  and a string of another shape, or one that names no date or time, is the \<open>ValueError\<close>
  of Python, here \<open>None\<close>. Python versions that read further ISO forms agree with the
  model on every string that \<open>isoformat()\<close> writes.
\<close>

definition digit_chars :: string where
  "digit_chars = ''0123456789''"

definition digit_char :: "nat \<Rightarrow> char" where
  "digit_char n = digit_chars ! n"

definition digit_value :: "char \<Rightarrow> nat option" where
  "digit_value c = map_of (zip digit_chars [0..<10]) c"

text \<open>\<open>'%02d'\<close> and \<open>'%04d'\<close> on numbers below 100 and 10000.\<close>

definition pad2 :: "nat \<Rightarrow> string" where
  "pad2 n = [digit_char (n div 10), digit_char (n mod 10)]"

definition pad4 :: "nat \<Rightarrow> string" where
  "pad4 n = pad2 (n div 100) @ pad2 (n mod 100)"

fun read_digits :: "string \<Rightarrow> nat \<Rightarrow> nat option" where
  "read_digits [] acc = Some acc"
| "read_digits (c # cs) acc =
     (case digit_value c of
        None \<Rightarrow> None
      | Some v \<Rightarrow> read_digits cs (10 * acc + v))"

definition valid_time :: "time \<Rightarrow> bool" where
  "valid_time tm = (case tm of (hour, minute, second) \<Rightarrow> hour < 24 \<and> minute < 60 \<and> second < 60)"

definition date_isoformat :: "date \<Rightarrow> string" where
  "date_isoformat dt =
     (case dt of (year, month, day) \<Rightarrow> pad4 year @ ''-'' @ pad2 month @ ''-'' @ pad2 day)"

definition time_isoformat :: "time \<Rightarrow> string" where
  "time_isoformat tm =
     (case tm of (hour, minute, second) \<Rightarrow>
        pad2 hour @ '':'' @ pad2 minute @ '':'' @ pad2 second)"

definition date_fromisoformat :: "string \<Rightarrow> date option" where
  "date_fromisoformat s =
     (if length s \<noteq> 10 then None
      else if s ! 4 \<noteq> CHR ''-'' \<or> s ! 7 \<noteq> CHR ''-'' then None
      else case (read_digits (take 4 s) 0, read_digits (take 2 (drop 5 s)) 0,
                 read_digits (drop 8 s) 0) of
             (Some year, Some month, Some day) \<Rightarrow>
               if valid_date (year, month, day) then Some (year, month, day) else None
           | _ \<Rightarrow> None)"

definition time_fromisoformat :: "string \<Rightarrow> time option" where
  "time_fromisoformat s =
     (if length s \<noteq> 8 then None
      else if s ! 2 \<noteq> CHR '':'' \<or> s ! 5 \<noteq> CHR '':'' then None
      else case (read_digits (take 2 s) 0, read_digits (take 2 (drop 3 s)) 0,
                 read_digits (drop 6 s) 0) of
             (Some hour, Some minute, Some second) \<Rightarrow>
               if valid_time (hour, minute, second) then Some (hour, minute, second)
               else None
           | _ \<Rightarrow> None)"

subsection \<open>\<open>StateRepository.export_data\<close> and \<open>load_data\<close>\<close>

text \<open>
  The save file as \<open>load_data\<close> receives it from \<open>json.load\<close>: a dictionary whose three keys
  may each be missing (\<open>None\<close>); \<open>active_boss\<close> may also be present and \<open>null\<close>. The JSON
  text between \<open>json.dumps\<close> and \<open>json.load\<close> is not modelled, the object is.
\<close>

record json_data =
  json_tasks :: "json_task list option"
  json_boss_xp :: "int option"
  json_active_boss :: "boss option option"

text \<open>\<open>to_dict(orient="records")\<close> with \<open>DateEncoder\<close>: one row as the JSON object.\<close>

definition export_row :: "quest \<Rightarrow> json_task" where
  "export_row t =
     \<lparr>Title = Title t, Description = Description t, Date = date_isoformat (Date t),
      Start = time_isoformat (Start t), End = time_isoformat (End t), Status = Status t,
      Color = Color t\<rparr>"

text \<open>
  \<open>json.dumps\<close> writes Python ints, strings, booleans, lists, dictionaries and \<open>None\<close>, and
  through \<open>DateEncoder\<close> dates and times; for any other object \<open>DateEncoder.default\<close> falls
  through to the default of \<open>json\<close>, which raises \<open>TypeError\<close>. The boss record keeps the
  value of \<open>CurrentHP\<close>; \<open>json.dumps\<close> depends on the type of the object stored under that key,
  which is the argument \<open>hp_type\<close>. It is a Python int after the summon form and after a
  load. It is a \<open>numpy.int64\<close> once \<open>main\<close> has dealt a hit: \<open>main\<close> passes \<open>deal_damage\<close> the
  difference of two column sums (lines 273 to 283), and line 81 then subtracts a
  \<open>numpy.int64\<close> from the HP. The bonus XP and \<open>MaxHP\<close> are always Python ints.
\<close>

definition export_data :: "int_type \<Rightarrow> session \<Rightarrow> py_error + json_data" where
  "export_data hp_type st =
     (if active_boss st \<noteq> None \<and> hp_type = NumpyInt64 then Inl TypeError
      else Inr \<lparr>json_tasks = Some (map export_row (tasks st)),
                json_boss_xp = Some (boss_xp st),
                json_active_boss = Some (active_boss st)\<rparr>)"

text \<open>
  Lines 122 to 125 build the frame and convert the columns \<open>Date\<close>, \<open>Start\<close> and \<open>End\<close> one
  after the other; the first string that does not parse raises. \<open>parse_row\<close> converts
  the three entries of one row, \<open>parse_frame\<close> all rows: the result is the converted
  frame, or \<open>None\<close> when some entry raises.
\<close>

definition parse_row :: "json_task \<Rightarrow> quest option" where
  "parse_row r =
     (case date_fromisoformat (Date r) of
        None \<Rightarrow> None
      | Some d \<Rightarrow>
          (case time_fromisoformat (Start r) of
             None \<Rightarrow> None
           | Some s \<Rightarrow>
               (case time_fromisoformat (End r) of
                  None \<Rightarrow> None
                | Some e \<Rightarrow>
                    Some \<lparr>Title = Title r, Description = Description r, Date = d,
                          Start = s, End = e, Status = Status r, Color = Color r\<rparr>)))"

fun parse_frame :: "json_task list \<Rightarrow> quest list option" where
  "parse_frame [] = Some []"
| "parse_frame (r # rs) =
     (case parse_row r of
        None \<Rightarrow> None
      | Some t \<Rightarrow> (case parse_frame rs of None \<Rightarrow> None | Some ts \<Rightarrow> Some (t # ts)))"

text \<open>What the user is shown: \<open>st.success\<close> or, from the \<open>except\<close> branch, \<open>st.error\<close>.\<close>

datatype load_report = Loaded | Corrupt

text \<open>
  \<open>load_data\<close> writes to the session as it goes. The two assignments of lines 117 and 118
  come before the parsing, the assignment of the tasks after it; the \<open>except\<close> branch
  restores nothing.
\<close>

definition load_data :: "json_data \<Rightarrow> session \<Rightarrow> load_report \<times> session" where
  "load_data jd st =
     (let st1 = st\<lparr>boss_xp := (case json_boss_xp jd of None \<Rightarrow> 0 | Some x \<Rightarrow> x)\<rparr>;
          st2 = st1\<lparr>active_boss :=
                      (case json_active_boss jd of None \<Rightarrow> None | Some b \<Rightarrow> b)\<rparr>;
          tsks = (case json_tasks jd of None \<Rightarrow> [] | Some ts \<Rightarrow> ts)
      in if tsks \<noteq> []
         then (case parse_frame tsks of
                 None \<Rightarrow> (Corrupt, st2)
               | Some df \<Rightarrow> (Loaded, st2\<lparr>tasks := df\<rparr>))
         else (Loaded, st2\<lparr>tasks := []\<rparr>))"

section \<open>Example values\<close>

text \<open>A completed and an open quest on the first two days of March 2024.\<close>

definition quest_done :: quest where
  "quest_done =
     \<lparr>Title = ''Install Streamlit'', Description = ''pip install streamlit'',
      Date = (2024, 3, 1), Start = (9, 0, 0), End = (10, 0, 0), Status = True,
      Color = ''#33B679''\<rparr>"

definition quest_open :: quest where
  "quest_open =
     \<lparr>Title = ''Write report'', Description = '''',
      Date = (2024, 3, 2), Start = (9, 0, 0), End = (10, 0, 0), Status = False,
      Color = ''#3788d8''\<rparr>"

text \<open>A summoned boss of 100 HP that has come down to 15, and a session fighting a boss.\<close>

definition dragon :: boss where
  "dragon = \<lparr>Name = ''Entropy Dragon'', MaxHP = 100, CurrentHP = 15, Image_icon = ''dragon''\<rparr>"

definition arena_session :: "boss \<Rightarrow> session" where
  "arena_session b = \<lparr>tasks = [quest_done], boss_xp = 500, active_boss = Some b\<rparr>"

text \<open>
  Completed quests around 1 March 2024, a leap year: one history with a gap after the
  most recent day, one with three days in a row across 29 February.
\<close>

definition done_on :: "date \<Rightarrow> quest" where
  "done_on d =
     \<lparr>Title = ''Daily quest'', Description = '''', Date = d, Start = (9, 0, 0),
      End = (10, 0, 0), Status = True, Color = ''#3788d8''\<rparr>"

definition gap_history :: "quest list" where
  "gap_history =
     [done_on (2024, 2, 26), done_on (2024, 3, 1), quest_open, done_on (2024, 2, 27),
      done_on (2024, 3, 1)]"

definition run_history :: "quest list" where
  "run_history =
     [done_on (2024, 2, 28), done_on (2024, 3, 1), done_on (2024, 2, 29),
      done_on (2024, 2, 26)]"

text \<open>A save file whose only task has a date that is no ISO date.\<close>

definition corrupt_save :: json_data where
  "corrupt_save =
     \<lparr>json_tasks =
        Some [\<lparr>Title = ''Broken'', Description = '''', Date = ''tomorrow'',
               Start = ''09:00:00'', End = ''10:00:00'', Status = False,
               Color = ''#3788d8''\<rparr>],
      json_boss_xp = Some 0,
      json_active_boss = Some None\<rparr>"

section \<open>Experience and level\<close>

lemma status_sum_count: "status_sum df = int (length (filter Status df))"
  unfolding status_sum_def by (induction df) simp_all

lemma wrap_int64_id:
  assumes "- (2 ^ 63) \<le> x" and "x < 2 ^ 63"
  shows "wrap_int64 x = x"
proof -
  have "0 \<le> x + 2 ^ 63" and "x + 2 ^ 63 < 2 ^ 64"
    using assms by simp_all
  then have "(x + 2 ^ 63) mod 2 ^ 64 = x + 2 ^ 63"
    by (rule mod_pos_pos_trivial)
  then show ?thesis
    by (simp add: wrap_int64_def)
qed

lemma num_op_python: "num_op f (PythonInt, x) (PythonInt, y) = Inr (PythonInt, f x y)"
  by (simp add: num_op_def)

lemma num_op_numpy:
  assumes "- (2 ^ 63) \<le> y" and "y < 2 ^ 63"
    and "- (2 ^ 63) \<le> f x y" and "f x y < 2 ^ 63"
  shows "num_op f (NumpyInt64, x) (PythonInt, y) = Inr (NumpyInt64, f x y)"
  using assms by (simp add: num_op_def as_int64_def wrap_int64_id)

lemma calculate_stats_empty:
  "calculate_stats [] bxp
     = Inr \<lparr>xp = bxp, level = bxp div 500 + 1, progress = of_int (bxp mod 500) / 500\<rparr>"
  by (simp add: calculate_stats_def and_then_def num_op_python XP_PER_TASK_def
      LEVEL_BASE_XP_def)

lemma calculate_stats_in_range:
  assumes "df \<noteq> []" and "0 \<le> bxp"
    and "int (length (filter Status df)) * 50 + bxp < 2 ^ 63"
  shows "calculate_stats df bxp
     = Inr \<lparr>xp = int (length (filter Status df)) * 50 + bxp,
            level = (int (length (filter Status df)) * 50 + bxp) div 500 + 1,
            progress = of_int ((int (length (filter Status df)) * 50 + bxp) mod 500) / 500\<rparr>"
proof -
  let ?c = "int (length (filter Status df))"
  let ?x = "?c * 50 + bxp"
  have c: "0 \<le> ?c" "?c < 2 ^ 63" and t: "0 \<le> ?c * 50" "?c * 50 < 2 ^ 63"
    and b: "bxp < 2 ^ 63" and x: "0 \<le> ?x"
    using assms(2,3) by simp_all
  have q: "0 \<le> ?x div 500" "?x div 500 + 1 < 2 ^ 63"
    using x assms(3) by (simp_all add: pos_imp_zdiv_nonneg_iff) 
  have r: "0 \<le> ?x mod 500" "?x mod 500 < 500"
    by simp_all
  have s1: "wrap_int64 (status_sum df) = ?c"
    using c by (simp add: status_sum_count wrap_int64_id)
  have s2: "num_op (*) (NumpyInt64, ?c) (PythonInt, 50) = Inr (NumpyInt64, ?c * 50)"
    using t by (intro num_op_numpy) simp_all
  have s3: "num_op (+) (NumpyInt64, ?c * 50) (PythonInt, bxp) = Inr (NumpyInt64, ?x)"
    using assms(2,3) b x by (intro num_op_numpy) simp_all
  have s4: "num_op (div) (NumpyInt64, ?x) (PythonInt, 500) = Inr (NumpyInt64, ?x div 500)"
    using q by (intro num_op_numpy) simp_all
  have s5: "num_op (+) (NumpyInt64, ?x div 500) (PythonInt, 1) = Inr (NumpyInt64, ?x div 500 + 1)"
    using q by (intro num_op_numpy) simp_all
  have s6: "num_op (mod) (NumpyInt64, ?x) (PythonInt, 500) = Inr (NumpyInt64, ?x mod 500)"
    using r by (intro num_op_numpy) simp_all
  show ?thesis
    using assms(1)
    by (simp add: calculate_stats_def and_then_def XP_PER_TASK_def LEVEL_BASE_XP_def
        s1 s2 s3 s4 s5 s6)
qed


lemma progress_bounds:
  "(0::rat) \<le> of_int (x mod 500) / 500" "(of_int (x mod 500) :: rat) / 500 < 1"
proof -
  have "0 \<le> x mod 500"
    by simp
  then show "(0::rat) \<le> of_int (x mod 500) / 500"
    by simp
  have "x mod 500 < 500"
    by simp
  then have "(of_int (x mod 500) :: rat) < of_int 500"
    by (simp only: of_int_less_iff)
  then show "(of_int (x mod 500) :: rat) / 500 < 1"
    by simp
qed

lemma calculate_stats_value:
  assumes "0 \<le> bxp" and "df = [] \<or> int (length (filter Status df)) * 50 + bxp < 2 ^ 63"
  shows "calculate_stats df bxp
     = Inr \<lparr>xp = int (length (filter Status df)) * 50 + bxp,
            level = (int (length (filter Status df)) * 50 + bxp) div 500 + 1,
            progress = of_int ((int (length (filter Status df)) * 50 + bxp) mod 500) / 500\<rparr>"
proof (cases "df = []")
  case True
  then show ?thesis
    by (simp add: calculate_stats_empty)
next
  case False
  with assms show ?thesis
    by (intro calculate_stats_in_range) simp_all
qed

text \<open>
  C1. For every task set and every bonus XP that is not negative, such that the task set
  is empty or fifty times the number of completed tasks plus the bonus is below 2^63,
  \<open>calculate_stats\<close> returns as xp fifty times the number of completed tasks plus the bonus,
  as level the floor of xp / 500 plus one, and as progress (xp mod 500) / 500, which lies
  in [0, 1); for the empty task set the completed count is 0, so xp is the bonus alone.
  From 2^63 on the sum of a task set with rows no longer fits the 64 bits it is computed
  in: one completed task and the bonus 2^63 - 1 give a negative xp.
\<close>

theorem calculate_stats_correct:
  assumes "0 \<le> bxp" and "df = [] \<or> int (length (filter Status df)) * 50 + bxp < 2 ^ 63"
  shows "\<exists>s. calculate_stats df bxp = Inr s
       \<and> xp s = int (length (filter Status df)) * 50 + bxp
       \<and> level s = xp s div 500 + 1
       \<and> progress s = of_int (xp s mod 500) / 500
       \<and> 0 \<le> progress s
       \<and> progress s < 1
       \<and> (df = [] \<longrightarrow> xp s = bxp)"
proof -
  let ?x = "int (length (filter Status df)) * 50 + bxp"
  let ?s = "\<lparr>xp = ?x, level = ?x div 500 + 1, progress = of_int (?x mod 500) / 500\<rparr>"
  have "calculate_stats df bxp = Inr ?s"
    using assms by (rule calculate_stats_value)
  moreover have "xp ?s = ?x" and "level ?s = xp ?s div 500 + 1"
    and "progress ?s = of_int (xp ?s mod 500) / 500"
    by simp_all
  moreover have "0 \<le> progress ?s" and "progress ?s < 1"
    using progress_bounds[of ?x] by simp_all
  moreover have "df = [] \<longrightarrow> xp ?s = bxp"
    by simp
  ultimately show ?thesis
    by blast
qed

theorem calculate_stats_correct_witness:
  "(0::int) \<le> 500
   \<and> int (length (filter Status [quest_done, quest_open])) * 50 + 500 < 2 ^ 63
   \<and> calculate_stats [quest_done, quest_open] 500
       = Inr \<lparr>xp = 550, level = 2, progress = 1 / 10\<rparr>
   \<and> calculate_stats ([] :: quest list) 500 = Inr \<lparr>xp = 500, level = 2, progress = 0\<rparr>"
proof -
  have h: "(0::int) \<le> 500"
    "int (length (filter Status [quest_done, quest_open])) * 50 + 500 < 2 ^ 63"
    by (simp_all add: quest_done_def quest_open_def)
  obtain s where s: "calculate_stats [quest_done, quest_open] 500 = Inr s"
    "xp s = int (length (filter Status [quest_done, quest_open])) * 50 + 500"
    "level s = xp s div 500 + 1" "progress s = of_int (xp s mod 500) / 500"
    using calculate_stats_correct [OF h(1), of "[quest_done, quest_open]"] h(2) by blast
  have "xp s = 550"
    using s(2) by (simp add: quest_done_def quest_open_def)
  then have "s = \<lparr>xp = 550, level = 2, progress = 1 / 10\<rparr>"
    using s(3,4) by (cases s) simp
  then have a: "calculate_stats [quest_done, quest_open] 500
       = Inr \<lparr>xp = 550, level = 2, progress = 1 / 10\<rparr>"
    using s(1) by simp
  obtain e where e: "calculate_stats ([] :: quest list) 500 = Inr e" "xp e = 500"
    "level e = xp e div 500 + 1" "progress e = of_int (xp e mod 500) / 500"
    using calculate_stats_correct [OF h(1), of "[] :: quest list"] by auto
  then have "e = \<lparr>xp = 500, level = 2, progress = 0\<rparr>"
    by (cases e) simp
  with e(1) h a show ?thesis
    by simp
qed

theorem calculate_stats_correct_counterexample:
  "(0::int) \<le> 9223372036854775807
   \<and> calculate_stats [quest_done] 9223372036854775807
       = Inr \<lparr>xp = - 9223372036854775759, level = - 18446744073709551,
              progress = 241 / 500\<rparr>
   \<and> (- 9223372036854775759 :: int)
       \<noteq> int (length (filter Status [quest_done])) * 50 + 9223372036854775807"
  by (simp add: calculate_stats_def and_then_def num_op_def as_int64_def wrap_int64_def
      status_sum_def quest_done_def XP_PER_TASK_def LEVEL_BASE_XP_def)

text \<open>
  C8. For every task set and every bonus XP that is not negative, such that the task set
  is empty or fifty times the number of completed tasks plus the bonus is below 2^63, the
  level returned by \<open>calculate_stats\<close> is at least 1, also when xp is 0. One completed task
  and the bonus 2^63 - 1 give a level below 1.
\<close>

theorem calculate_stats_level_ge_1:
  assumes "0 \<le> bxp" and "df = [] \<or> int (length (filter Status df)) * 50 + bxp < 2 ^ 63"
  shows "\<exists>s. calculate_stats df bxp = Inr s \<and> 1 \<le> level s"
proof -
  let ?x = "int (length (filter Status df)) * 50 + bxp"
  have "0 \<le> ?x"
    using assms(1) by simp
  then have "0 \<le> ?x div 500"
    by (simp add: pos_imp_zdiv_nonneg_iff)
  then show ?thesis
    by (simp add: calculate_stats_value[OF assms])
qed

theorem calculate_stats_level_ge_1_witness:
  "(0::int) \<le> 450
   \<and> int (length (filter Status [quest_done])) * 50 + 450 < 2 ^ 63
   \<and> calculate_stats [quest_done] 450 = Inr \<lparr>xp = 500, level = 2, progress = 0\<rparr>
   \<and> 1 \<le> level \<lparr>xp = 500, level = 2, progress = 0\<rparr>
   \<and> calculate_stats ([] :: quest list) 0 = Inr \<lparr>xp = 0, level = 1, progress = 0\<rparr>
   \<and> 1 \<le> level \<lparr>xp = 0, level = 1, progress = 0\<rparr>"
proof -
  have z: "calculate_stats ([] :: quest list) 0 = Inr \<lparr>xp = 0, level = 1, progress = 0\<rparr>"
    by (simp add: calculate_stats_empty)
  have h: "int (length (filter Status [quest_done])) * 50 + 450 < 2 ^ 63"
    by (simp add: quest_done_def)
  have v: "calculate_stats [quest_done] 450 = Inr \<lparr>xp = 500, level = 2, progress = 0\<rparr>"
    using calculate_stats_value[of 450 "[quest_done]"] by (simp add: quest_done_def)
  from calculate_stats_level_ge_1 [of 0 "[] :: quest list"]
    calculate_stats_level_ge_1 [of 450 "[quest_done]"] z h v
  show ?thesis
    by simp
qed

theorem calculate_stats_level_ge_1_counterexample:
  "(0::int) \<le> 9223372036854775807
   \<and> calculate_stats [quest_done] 9223372036854775807
       = Inr \<lparr>xp = - 9223372036854775759, level = - 18446744073709551,
              progress = 241 / 500\<rparr>
   \<and> \<not> 1 \<le> level \<lparr>xp = - 9223372036854775759, level = - 18446744073709551,
                     progress = 241 / 500\<rparr>"
  by (simp add: calculate_stats_def and_then_def num_op_def as_int64_def wrap_int64_def
      status_sum_def quest_done_def XP_PER_TASK_def LEVEL_BASE_XP_def)

section \<open>Boss combat\<close>


text \<open>
  C10. \<open>deal_damage\<close> changes the \<open>CurrentHP\<close> entry of the boss only: name, \<open>MaxHP\<close>
  and image of the returned boss are those of the input.
\<close>

theorem deal_damage_frame:
  "Name (fst (deal_damage b hit_count)) = Name b
   \<and> MaxHP (fst (deal_damage b hit_count)) = MaxHP b
   \<and> Image_icon (fst (deal_damage b hit_count)) = Image_icon b"
  by (simp add: deal_damage_def Let_def)

lemma render_boss_arena_reaches_check:
  assumes "active_boss st = Some b" and "0 < MaxHP b" and "CurrentHP b \<le> MaxHP b"
  shows "render_boss_arena st = Inr (defeat_detection st b)"
proof -
  have "(of_int (CurrentHP b) :: rat) \<le> of_int (MaxHP b)"
    using assms(3) by (simp only: of_int_le_iff)
  moreover have "(0::rat) < of_int (MaxHP b)"
    using assms(2) by simp
  ultimately have "(of_int (CurrentHP b) :: rat) / of_int (MaxHP b) \<le> 1"
    by (simp add: divide_le_eq)
  then have "\<not> 1 < max 0 ((of_int (CurrentHP b) :: rat) / of_int (MaxHP b))"
    by simp
  then show ?thesis
    using assms(1,2) by (simp add: render_boss_arena_def Let_def)
qed

text \<open>
  C4. The defeat check after damage: when the \<open>CurrentHP\<close> of the active boss is at most
  0, exactly 500 is added to the bonus XP and the active boss is cleared (the entry is
  dropped, its HP is not reset); when it is positive, the step changes nothing. The tasks
  are untouched either way. \<open>render_boss_arena\<close> comes to this check for every boss with
  positive \<open>MaxHP\<close> and \<open>CurrentHP\<close> not above it.
\<close>

theorem defeat_detection_correct:
  "(CurrentHP b \<le> 0 \<longrightarrow>
      boss_xp (defeat_detection st b) = boss_xp st + 500
      \<and> active_boss (defeat_detection st b) = None
      \<and> tasks (defeat_detection st b) = tasks st)
   \<and> (0 < CurrentHP b \<longrightarrow> defeat_detection st b = st)
   \<and> (active_boss st = Some b \<and> 0 < MaxHP b \<and> CurrentHP b \<le> MaxHP b \<longrightarrow>
        render_boss_arena st = Inr (defeat_detection st b))"
  using render_boss_arena_reaches_check [of st b]
  by (simp add: defeat_detection_def BOSS_BONUS_XP_def)

theorem defeat_detection_correct_witness:
  "CurrentHP (fst (deal_damage dragon 2)) \<le> 0
   \<and> active_boss (arena_session (fst (deal_damage dragon 2)))
       = Some (fst (deal_damage dragon 2))
   \<and> 0 < MaxHP (fst (deal_damage dragon 2))
   \<and> CurrentHP (fst (deal_damage dragon 2)) \<le> MaxHP (fst (deal_damage dragon 2))
   \<and> render_boss_arena (arena_session (fst (deal_damage dragon 2)))
       = Inr \<lparr>tasks = [quest_done], boss_xp = 1000, active_boss = None\<rparr>
   \<and> 0 < CurrentHP (fst (deal_damage dragon 1))
   \<and> defeat_detection (arena_session (fst (deal_damage dragon 1)))
        (fst (deal_damage dragon 1))
       = arena_session (fst (deal_damage dragon 1))"
  using defeat_detection_correct
      [of "fst (deal_damage dragon 2)" "arena_session (fst (deal_damage dragon 2))"]
    defeat_detection_correct
      [of "fst (deal_damage dragon 1)" "arena_session (fst (deal_damage dragon 1))"]
  by (simp add: deal_damage_def Let_def BOSS_DMG_PER_TASK_def dragon_def arena_session_def
      defeat_detection_def BOSS_BONUS_XP_def)

section \<open>Calendar facts\<close>

lemma div_step:
  fixes y k :: int
  assumes "0 < k"
  shows "y div k - (y - 1) div k = (if y mod k = 0 then 1 else 0)"
proof (cases "y mod k = 0")
  case True
  have "y - 1 = k * (y div k - 1) + (k - 1)"
    using True mult_div_mod_eq[of k y] by (simp add: algebra_simps)
  then have "(y - 1) div k = y div k - 1"
    using assms int_div_pos_eq[of "y - 1" k "y div k - 1" "k - 1"] by simp
  then show ?thesis using True by simp
next
  case False
  then have "0 < y mod k" using assms pos_mod_sign[of k y] by linarith
  moreover have "y mod k < k" using assms by simp
  moreover have "y - 1 = k * (y div k) + (y mod k - 1)"
    using mult_div_mod_eq[of k y] by (simp add: algebra_simps)
  ultimately have "(y - 1) div k = y div k"
    using int_div_pos_eq[of "y - 1" k "y div k" "y mod k - 1"] by simp
  then show ?thesis using False by simp
qed

lemma is_leap_int:
  "is_leap y = (int y mod 4 = 0 \<and> (int y mod 100 \<noteq> 0 \<or> int y mod 400 = 0))"
proof -
  have "\<And>k. (int y mod int k = 0) = (y mod k = 0)"
    by (simp flip: zmod_int)
  from this[of 4] this[of 100] this[of 400] show ?thesis
    by (simp add: is_leap_def)
qed

lemma days_before_year_diff: "days_before_year (Suc y) - days_before_year y
      = 365 + (int y div 4 - (int y - 1) div 4) - (int y div 100 - (int y - 1) div 100) + (int y div 400 - (int y - 1) div 400)"
    by (simp add: days_before_year_def Let_def)

lemma dvd_mod_chain:
  fixes y :: int
  assumes "y mod 400 = 0"
  shows "y mod 100 = 0" and "y mod 4 = 0"
proof -
  have d: "(400::int) dvd y"
    using assms by (simp add: mod_eq_0_iff_dvd)
  have "(100::int) dvd 400" and "(4::int) dvd 400"
    by simp_all
  then have "(100::int) dvd y" and "(4::int) dvd y"
    using d by (blast intro: dvd_trans)+
  then show "y mod 100 = 0" and "y mod 4 = 0"
    by (simp_all add: mod_eq_0_iff_dvd)
qed

lemma mod_100_4:
  fixes y :: int
  assumes "y mod 100 = 0"
  shows "y mod 4 = 0"
proof -
  have "(100::int) dvd y"
    using assms by (simp add: mod_eq_0_iff_dvd)
  moreover have "(4::int) dvd 100"
    by simp
  ultimately have "(4::int) dvd y"
    by (blast intro: dvd_trans)
  then show ?thesis
    by (simp add: mod_eq_0_iff_dvd)
qed

lemma leap_count:
  fixes A B C :: bool
  assumes "C \<Longrightarrow> B" and "B \<Longrightarrow> A"
  shows "(365::int) + (if A then 1 else 0) - (if B then 1 else 0) + (if C then 1 else 0)
       = 365 + (if A \<and> (\<not> B \<or> C) then 1 else 0)"
  using assms by (cases A; cases B; cases C) simp_all

lemma days_before_year_Suc:
  "days_before_year (Suc y) = days_before_year y + 365 + (if is_leap y then 1 else 0)"
proof -
  have s4: "int y div 4 - (int y - 1) div 4 = (if int y mod 4 = 0 then 1 else 0)"
    by (rule div_step) simp
  have s100: "int y div 100 - (int y - 1) div 100 = (if int y mod 100 = 0 then 1 else 0)"
    by (rule div_step) simp
  have s400: "int y div 400 - (int y - 1) div 400 = (if int y mod 400 = 0 then 1 else 0)"
    by (rule div_step) simp
  have "days_before_year (Suc y) - days_before_year y = 365 + (if is_leap y then 1 else 0)"
    unfolding days_before_year_diff is_leap_int s4 s100 s400
    by (rule leap_count) (simp_all only: dvd_mod_chain(1) mod_100_4)
  then show ?thesis
    by simp
qed

lemma days_before_year_mono: "y1 \<le> y2 \<Longrightarrow> days_before_year y1 \<le> days_before_year y2"
proof (induction y2)
  case 0
  then show ?case by simp
next
  case (Suc y2)
  show ?case
  proof (cases "y1 = Suc y2")
    case True
    then show ?thesis by simp
  next
    case False
    with Suc have "days_before_year y1 \<le> days_before_year y2" by simp
    then show ?thesis by (simp add: days_before_year_Suc)
  qed
qed

lemma month_induct:
  assumes "1 \<le> m" and "m \<le> (12::nat)"
    and "list_all P [1, 2, 3, 4, 5, 6, 7, 8, 9, 10, 11, 12]"
  shows "P m"
proof -
  have "m \<in> {1..12}"
    using assms(1,2) by simp
  also have "{1..12::nat} = set [1, 2, 3, 4, 5, 6, 7, 8, 9, 10, 11, 12]"
    by (simp add: atLeastAtMost_insertL[symmetric] eval_nat_numeral atLeastAtMostSuc_conv)
  finally show ?thesis
    using assms(3) unfolding list_all_iff by blast
qed

lemma days_before_month_Suc:
  assumes "1 \<le> m" and "m < 12"
  shows "days_before_month y (Suc m) = days_before_month y m + days_in_month y m"
proof -
  have "m \<le> 12"
    using assms(2) by simp
  with assms(1) have "m < 12 \<longrightarrow>
      days_before_month y (Suc m) = days_before_month y m + days_in_month y m"
    by (rule month_induct)
      (simp add: days_before_month_def days_in_month_def DAYS_BEFORE_MONTH_def
        DAYS_IN_MONTH_def)
  with assms(2) show ?thesis
    by simp
qed

lemma days_in_month_pos:
  assumes "1 \<le> m" and "m \<le> 12"
  shows "0 < days_in_month y m"
  using assms by (rule month_induct) (simp add: days_in_month_def DAYS_IN_MONTH_def)

lemma days_before_month_mono:
  assumes "1 \<le> m1" and "m1 < m2" and "m2 \<le> 12"
  shows "days_before_month y m1 + days_in_month y m1 \<le> days_before_month y m2"
  using assms
proof (induction m2)
  case 0
  then show ?case by simp
next
  case (Suc m2)
  show ?case
  proof (cases "m1 = m2")
    case True
    then show ?thesis using Suc.prems by (simp add: days_before_month_Suc)
  next
    case False
    then have "days_before_month y m1 + days_in_month y m1 \<le> days_before_month y m2"
      using Suc by simp
    moreover have "days_before_month y (Suc m2) = days_before_month y m2 + days_in_month y m2"
      using Suc.prems False by (intro days_before_month_Suc) simp_all
    moreover have "0 < days_in_month y m2"
      using Suc.prems False by (intro days_in_month_pos) simp_all
    ultimately show ?thesis by simp
  qed
qed

lemma year_length:
  assumes "1 \<le> m" and "m \<le> 12"
  shows "days_before_month y m + days_in_month y m \<le> 365 + (if is_leap y then 1 else 0)"
  using assms
  by (rule month_induct)
    (simp add: days_before_month_def days_in_month_def DAYS_BEFORE_MONTH_def
      DAYS_IN_MONTH_def)

lemma days_before_month_nonneg:
  assumes "1 \<le> m" and "m \<le> 12"
  shows "0 \<le> days_before_month y m"
  using assms
  by (rule month_induct) (simp add: days_before_month_def DAYS_BEFORE_MONTH_def)

lemma toordinal_strict_mono:
  assumes "valid_date a" and "valid_date b" and "a < b"
  shows "toordinal a < toordinal b"
proof -
  obtain y1 m1 d1 where a: "a = (y1, m1, d1)" by (cases a) auto
  obtain y2 m2 d2 where b: "b = (y2, m2, d2)" by (cases b) auto
  have va: "1 \<le> m1" "m1 \<le> 12" "1 \<le> d1" "int d1 \<le> days_in_month y1 m1"
    using assms(1) by (simp_all add: a valid_date_def)
  have vb: "1 \<le> m2" "m2 \<le> 12" "1 \<le> d2" "int d2 \<le> days_in_month y2 m2"
    using assms(2) by (simp_all add: b valid_date_def)
  have "y1 < y2 \<or> (y1 = y2 \<and> m1 < m2) \<or> (y1 = y2 \<and> m1 = m2 \<and> d1 < d2)"
    using assms(3) unfolding a b less_prod_simp by arith
  then consider (year) "y1 < y2" | (month) "y1 = y2" "m1 < m2"
    | (day) "y1 = y2" "m1 = m2" "d1 < d2"
    by blast
  then show ?thesis
  proof cases
    case year
    have "toordinal a \<le> days_before_year y1 + (days_before_month y1 m1 + days_in_month y1 m1)"
      using va(4) by (simp add: a toordinal_def)
    also have "\<dots> \<le> days_before_year y1 + (365 + (if is_leap y1 then 1 else 0))"
      using year_length[OF va(1,2), of y1] by simp
    also have "\<dots> = days_before_year (Suc y1)"
      by (simp add: days_before_year_Suc)
    also have "\<dots> \<le> days_before_year y2"
      using year by (intro days_before_year_mono) simp
    also have "\<dots> < toordinal b"
      using vb(3) days_before_month_nonneg[OF vb(1,2), of y2] by (simp add: b toordinal_def)
    finally show ?thesis .
  next
    case month
    have "toordinal a \<le> days_before_year y1 + (days_before_month y1 m1 + days_in_month y1 m1)"
      using va(4) by (simp add: a toordinal_def)
    also have "\<dots> \<le> days_before_year y1 + days_before_month y1 m2"
      using days_before_month_mono[OF va(1) month(2) vb(2), of y1] by simp
    also have "\<dots> < toordinal b"
      using vb(3) month(1) by (simp add: b toordinal_def)
    finally show ?thesis .
  next
    case day
    then show ?thesis by (simp add: a b toordinal_def)
  qed
qed

section \<open>Streak\<close>

lemma sorted_last_Max:
  fixes ys :: "'a::linorder list"
  shows "sorted ys \<Longrightarrow> ys \<noteq> [] \<Longrightarrow> last ys = Max (set ys)"
proof (induction ys)
  case Nil
  then show ?case by simp
next
  case (Cons y ys)
  show ?case
  proof (cases "ys = []")
    case True
    then show ?thesis by simp
  next
    case False
    with Cons have l: "last ys = Max (set ys)" by simp
    have "last ys \<in> set ys" using False by simp
    then have "y \<le> last ys" using Cons.prems(1) by simp
    then show ?thesis using False l by (simp add: max_def)
  qed
qed

lemma hd_sorted_dates:
  assumes "completed \<noteq> []"
  shows "hd (sorted_dates completed) = Max (set (map Date completed))"
proof -
  have "remdups (map Date completed) \<noteq> []" using assms by simp
  then have "sort (remdups (map Date completed)) \<noteq> []"
    by (metis length_sort length_0_conv)
  then have "last (sort (remdups (map Date completed))) = Max (set (sort (remdups (map Date completed))))"
    by (intro sorted_last_Max) simp_all
  then show ?thesis by (simp add: sorted_dates_def hd_rev)
qed

lemma sorted_dates_Nil_iff: "sorted_dates completed = [] \<longleftrightarrow> completed = []"
  by (simp add: sorted_dates_def) (metis length_sort length_0_conv remdups_eq_nil_iff map_is_Nil_conv)

lemma streak_loop_ge: "n \<le> streak_loop cur ds n"
proof (induction ds arbitrary: cur n)
  case Nil
  show ?case by simp
next
  case (Cons d ds)
  have "n \<le> n + 1" by simp
  also have "n + 1 \<le> streak_loop d ds (n + 1)" by (rule Cons.IH)
  finally show ?case by simp
qed

lemma streak_loop_takeWhile:
  "streak_loop cur ds n
     = n + int (length (takeWhile (\<lambda>(a, b). days_between a b = 1) (zip (cur # ds) ds)))"
  by (induction ds arbitrary: cur n) simp_all

lemma calculate_streak_unfold:
  assumes "sorted_dates (filter Status df) = d0 # rest"
  shows "calculate_streak today df
       = (if 1 < days_between today d0 then 0 else streak_loop d0 rest 1)"
proof -
  have "filter Status df \<noteq> []"
    using assms sorted_dates_Nil_iff[of "filter Status df"] by auto
  moreover from this have "df \<noteq> []"
    by auto
  ultimately show ?thesis
    using assms by (simp add: calculate_streak_def Let_def)
qed

lemma sorted_dates_hd:
  assumes "completed \<noteq> []"
  shows "\<exists>rest. sorted_dates completed = Max (set (map Date completed)) # rest"
proof -
  have "sorted_dates completed \<noteq> []"
    using assms by (simp add: sorted_dates_Nil_iff)
  then have "sorted_dates completed = hd (sorted_dates completed) # tl (sorted_dates completed)"
    by simp
  then show ?thesis
    using hd_sorted_dates[OF assms] by metis
qed

lemma calculate_streak_most_recent:
  assumes "filter Status df \<noteq> []"
  shows "calculate_streak today df
       = (if 1 < days_between today (Max (set (map Date (filter Status df)))) then 0
          else streak_loop (Max (set (map Date (filter Status df))))
                 (tl (sorted_dates (filter Status df))) 1)"
proof -
  obtain rest where r: "sorted_dates (filter Status df)
      = Max (set (map Date (filter Status df))) # rest"
    using sorted_dates_hd[OF assms] by blast
  show ?thesis
    by (simp add: calculate_streak_unfold[OF r] r)
qed

lemma calculate_streak_single:
  assumes "Status t"
  shows "calculate_streak today [t] = (if 1 < days_between today (Date t) then 0 else 1)"
  using assms by (simp add: calculate_streak_def sorted_dates_def)

lemma gap_history_dates:
  "sorted_dates (filter Status gap_history) = [(2024, 3, 1), (2024, 2, 27), (2024, 2, 26)]"
  by code_simp

lemma run_history_dates:
  "sorted_dates (filter Status run_history)
     = [(2024, 3, 1), (2024, 2, 29), (2024, 2, 28), (2024, 2, 26)]"
  by code_simp

lemma future_history_max:
  "Max (set (map Date (filter Status [done_on (2024, 3, 5), quest_open, done_on (2024, 3, 3)])))
     = (2024, 3, 5)"
  by code_simp

text \<open>
  C2. When the distinct dates of the completed tasks, sorted descending, start at today
  or yesterday, \<open>calculate_streak\<close> returns 1 plus the length of the longest prefix of the
  consecutive pairs of that list whose two dates are exactly one day apart. The walk
  stops at the first gap whatever follows it: today and a date three days ago give 1.
\<close>

theorem calculate_streak_walk:
  assumes "sorted_dates (filter Status df) = d0 # rest"
    and "d0 = today \<or> days_between today d0 = 1"
  shows "calculate_streak today df
           = 1 + int (length (takeWhile (\<lambda>(a, b). days_between a b = 1)
                                (zip (d0 # rest) rest)))
       \<and> (\<forall>d more. rest = d # more \<and> days_between d0 d \<noteq> 1 \<longrightarrow>
             calculate_streak today df = 1)"
proof -
  have "\<not> 1 < days_between today d0"
    using assms(2) by (auto simp add: days_between_def)
  then have u: "calculate_streak today df = streak_loop d0 rest 1"
    by (simp add: calculate_streak_unfold[OF assms(1)])
  have "\<forall>d more. rest = d # more \<and> days_between d0 d \<noteq> 1 \<longrightarrow> streak_loop d0 rest 1 = 1"
    by simp
  then show ?thesis
    unfolding u by (simp add: streak_loop_takeWhile)
qed

theorem calculate_streak_walk_witness:
  "sorted_dates (filter Status gap_history) = [(2024, 3, 1), (2024, 2, 27), (2024, 2, 26)]
   \<and> days_between (2024, 3, 1) (2024, 2, 27) = 3
   \<and> days_between (2024, 2, 27) (2024, 2, 26) = 1
   \<and> calculate_streak (2024, 3, 1) gap_history = 1
   \<and> sorted_dates (filter Status run_history)
       = [(2024, 3, 1), (2024, 2, 29), (2024, 2, 28), (2024, 2, 26)]
   \<and> days_between (2024, 3, 2) (2024, 3, 1) = 1
   \<and> calculate_streak (2024, 3, 2) run_history = 3"
  using calculate_streak_walk [OF gap_history_dates, of "(2024, 3, 1)"]
    calculate_streak_walk [OF run_history_dates, of "(2024, 3, 2)"]
  by (simp add: gap_history_dates run_history_dates days_between_def toordinal_def
      days_before_year_def days_before_month_def DAYS_BEFORE_MONTH_def is_leap_def Let_def)

text \<open>
  C6. \<open>calculate_streak\<close> returns 0 exactly when the task set is empty, or no task is
  completed, or the most recent completion date is more than one day before today. A most
  recent date of today or yesterday gives at least 1; a single completed task of today or
  yesterday gives 1, one of two or more days ago gives 0.
\<close>

theorem calculate_streak_zero_iff:
  "((calculate_streak today df = 0) =
      (df = [] \<or> filter Status df = []
       \<or> (filter Status df \<noteq> []
          \<and> 1 < days_between today (Max (set (map Date (filter Status df)))))))
   \<and> (filter Status df \<noteq> []
        \<and> (Max (set (map Date (filter Status df))) = today
           \<or> days_between today (Max (set (map Date (filter Status df)))) = 1) \<longrightarrow>
        1 \<le> calculate_streak today df)
   \<and> (Status t \<and> (Date t = today \<or> days_between today (Date t) = 1) \<longrightarrow>
        calculate_streak today [t] = 1)
   \<and> (Status t \<and> 2 \<le> days_between today (Date t) \<longrightarrow>
        calculate_streak today [t] = 0)"
proof -
  let ?mr = "Max (set (map Date (filter Status df)))"
  have pos: "1 \<le> streak_loop ?mr (tl (sorted_dates (filter Status df))) 1"
    by (rule streak_loop_ge)
  have a: "(calculate_streak today df = 0) =
      (df = [] \<or> filter Status df = []
       \<or> (filter Status df \<noteq> [] \<and> 1 < days_between today ?mr))"
  proof (cases "filter Status df = []")
    case True
    then show ?thesis
      by (simp add: calculate_streak_def)
  next
    case False
    have "(calculate_streak today df = 0) = (1 < days_between today ?mr)"
      using pos by (simp add: calculate_streak_most_recent[OF False])
    moreover have "df \<noteq> []"
      using False by (cases df) simp_all
    ultimately show ?thesis
      using False by blast
  qed
  have b: "filter Status df \<noteq> [] \<and> (?mr = today \<or> days_between today ?mr = 1) \<longrightarrow>
        1 \<le> calculate_streak today df"
  proof (intro impI, elim conjE)
    assume ne: "filter Status df \<noteq> []" and near: "?mr = today \<or> days_between today ?mr = 1"
    from near have "\<not> 1 < days_between today ?mr"
      by (auto simp add: days_between_def)
    then show "1 \<le> calculate_streak today df"
      using pos by (simp add: calculate_streak_most_recent[OF ne])
  qed
  have c: "Status t \<and> (Date t = today \<or> days_between today (Date t) = 1) \<longrightarrow>
        calculate_streak today [t] = 1"
    by (auto simp add: calculate_streak_single days_between_def)
  have d: "Status t \<and> 2 \<le> days_between today (Date t) \<longrightarrow> calculate_streak today [t] = 0"
    by (simp add: calculate_streak_single)
  from a b c d show ?thesis
    by blast
qed

theorem calculate_streak_zero_iff_witness:
  "calculate_streak (2024, 3, 1) ([] :: quest list) = 0
   \<and> calculate_streak (2024, 3, 1) [quest_open] = 0
   \<and> Status (done_on (2024, 2, 28))
   \<and> 2 \<le> days_between (2024, 3, 1) (Date (done_on (2024, 2, 28)))
   \<and> calculate_streak (2024, 3, 1) [done_on (2024, 2, 28)] = 0
   \<and> days_between (2024, 3, 1) (Date (done_on (2024, 2, 29))) = 1
   \<and> calculate_streak (2024, 3, 1) [done_on (2024, 2, 29)] = 1
   \<and> calculate_streak (2024, 3, 1) [done_on (2024, 3, 1)] = 1"
proof -
  have s: "Status (done_on (2024, 2, 28))" "Status (done_on (2024, 2, 29))"
    "Status (done_on (2024, 3, 1))"
    by code_simp+
  have g: "2 \<le> days_between (2024, 3, 1) (Date (done_on (2024, 2, 28)))"
    by code_simp
  have h: "days_between (2024, 3, 1) (Date (done_on (2024, 2, 29))) = 1"
    by code_simp
  have i: "Date (done_on (2024, 3, 1)) = (2024, 3, 1)"
    by code_simp
  have n: "filter Status [quest_open] = []"
    by code_simp
  from s g h i n
    calculate_streak_zero_iff [of "(2024, 3, 1)" "[] :: quest list" "done_on (2024, 2, 28)"]
    calculate_streak_zero_iff [of "(2024, 3, 1)" "[quest_open]" "done_on (2024, 2, 29)"]
    calculate_streak_zero_iff [of "(2024, 3, 1)" "[]" "done_on (2024, 3, 1)"]
  show ?thesis
    by blast
qed

text \<open>
  C9. When the most recent completion date lies after today, the difference today minus
  that date is negative, the check of line 62 does not fire, and \<open>calculate_streak\<close>
  returns at least 1.
\<close>

theorem calculate_streak_future:
  assumes "filter Status df \<noteq> []"
    and "valid_date today"
    and "\<forall>t \<in> set df. valid_date (Date t)"
    and "today < Max (set (map Date (filter Status df)))"
  shows "days_between today (Max (set (map Date (filter Status df)))) < 0
       \<and> 1 \<le> calculate_streak today df"
proof -
  let ?mr = "Max (set (map Date (filter Status df)))"
  have "?mr \<in> set (map Date (filter Status df))"
    using assms(1) by (intro Max_in) (auto simp add: filter_empty_conv)
  then have "valid_date ?mr"
    using assms(3) by auto
  then have "toordinal today < toordinal ?mr"
    using assms(2,4) by (intro toordinal_strict_mono)
  then have n: "days_between today ?mr < 0"
    by (simp add: days_between_def)
  have "1 \<le> streak_loop ?mr (tl (sorted_dates (filter Status df))) 1"
    by (rule streak_loop_ge)
  then have "1 \<le> calculate_streak today df"
    using n by (simp add: calculate_streak_most_recent[OF assms(1)])
  with n show ?thesis
    by simp
qed

theorem calculate_streak_future_witness:
  "filter Status [done_on (2024, 3, 5), quest_open, done_on (2024, 3, 3)] \<noteq> []
   \<and> valid_date (2024, 3, 1)
   \<and> valid_date (Date (done_on (2024, 3, 5)))
   \<and> valid_date (Date quest_open)
   \<and> valid_date (Date (done_on (2024, 3, 3)))
   \<and> (2024, 3, 1)
         < Max (set (map Date
             (filter Status [done_on (2024, 3, 5), quest_open, done_on (2024, 3, 3)])))
   \<and> calculate_streak (2024, 3, 1) [done_on (2024, 3, 5), quest_open, done_on (2024, 3, 3)]
       = 1"
proof -
  let ?df = "[done_on (2024, 3, 5), quest_open, done_on (2024, 3, 3)]"
  have h1: "filter Status ?df \<noteq> []"
    by (simp add: done_on_def)
  have h2: "valid_date (2024, 3, 1)"
    by (simp add: valid_date_def days_in_month_def DAYS_IN_MONTH_def)
  have w: "valid_date (Date (done_on (2024, 3, 5)))" "valid_date (Date quest_open)"
    "valid_date (Date (done_on (2024, 3, 3)))"
    by (simp_all add: done_on_def quest_open_def valid_date_def days_in_month_def
        DAYS_IN_MONTH_def)
  have h3: "\<forall>t \<in> set ?df. valid_date (Date t)"
    using w by simp
  have h4: "(2024, 3, 1) < Max (set (map Date (filter Status ?df)))"
    unfolding future_history_max by simp
  have v: "calculate_streak (2024, 3, 1) ?df = 1"
    by code_simp
  from calculate_streak_future [OF h1 h2 h3 h4] h1 h2 w h4 v show ?thesis
    by blast
qed

section \<open>Save and load\<close>

lemma digit_induct:
  assumes "n < (10::nat)" and "list_all P [0, 1, 2, 3, 4, 5, 6, 7, 8, 9]"
  shows "P n"
proof -
  have "n \<in> {0..<10}"
    using assms(1) by simp
  also have "{0..<10::nat} = set [0, 1, 2, 3, 4, 5, 6, 7, 8, 9]"
    by (simp add: eval_nat_numeral atLeastLessThanSuc insert_commute)
  finally show ?thesis
    using assms(2) unfolding list_all_iff by blast
qed

lemma digit_value_digit_char:
  assumes "n < 10"
  shows "digit_value (digit_char n) = Some n"
  using assms
  by (rule digit_induct) (simp add: digit_value_def digit_char_def digit_chars_def upt_rec)

lemma read_pad2:
  assumes "n < 100"
  shows "read_digits (pad2 n @ rest) acc = read_digits rest (100 * acc + n)"
proof -
  have "n div 10 < 10" and "n mod 10 < 10"
    using assms by simp_all
  then show ?thesis
    by (simp add: pad2_def digit_value_digit_char add.commute)
qed

lemma read_pad4:
  assumes "n < 10000"
  shows "read_digits (pad4 n) 0 = Some n"
proof -
  have "n div 100 < 100" and "n mod 100 < 100"
    using assms by simp_all
  then have "read_digits (pad2 (n div 100) @ pad2 (n mod 100) @ []) 0
      = Some (100 * (100 * 0 + n div 100) + n mod 100)"
    by (simp only: read_pad2 read_digits.simps)
  then show ?thesis
    by (simp add: pad4_def)
qed

lemma length_pad [simp]: "length (pad2 n) = 2" "length (pad4 n) = 4"
  by (simp_all add: pad4_def pad2_def)

lemma date_roundtrip:
  assumes "valid_date d"
  shows "date_fromisoformat (date_isoformat d) = Some d"
proof -
  obtain y m dd where d: "d = (y, m, dd)"
    by (cases d) auto
  have m: "m \<le> 12" and y: "y \<le> 9999" and d1: "int dd \<le> days_in_month y m" and m1: "1 \<le> m"
    using assms by (simp_all add: d valid_date_def)
  have "days_in_month y m \<le> 31"
    using m1 m by (rule month_induct) (simp add: days_in_month_def DAYS_IN_MONTH_def)
  then have dd: "dd < 100"
    using d1 by simp
  have ry: "read_digits (pad4 y) 0 = Some y"
    using y by (intro read_pad4) simp
  have rm: "read_digits (pad2 m) 0 = Some m"
    using m read_pad2[of m "[]" 0] by simp
  have rd: "read_digits (pad2 dd) 0 = Some dd"
    using dd read_pad2[of dd "[]" 0] by simp
  show ?thesis
    using assms by (simp add: d date_fromisoformat_def date_isoformat_def nth_append ry rm rd)
qed

lemma time_roundtrip:
  assumes "valid_time t"
  shows "time_fromisoformat (time_isoformat t) = Some t"
proof -
  obtain h m s where t: "t = (h, m, s)"
    by (cases t) auto
  have "h < 100" and "m < 100" and "s < 100"
    using assms by (simp_all add: t valid_time_def)
  then have "read_digits (pad2 h) 0 = Some h" and "read_digits (pad2 m) 0 = Some m"
    and "read_digits (pad2 s) 0 = Some s"
    using read_pad2[of h "[]" 0] read_pad2[of m "[]" 0] read_pad2[of s "[]" 0] by simp_all
  then show ?thesis
    using assms by (simp add: t time_fromisoformat_def time_isoformat_def nth_append)
qed

lemma parse_export_row:
  assumes "valid_date (Date t)" and "valid_time (Start t)" and "valid_time (End t)"
  shows "parse_row (export_row t) = Some t"
  using assms by (simp add: parse_row_def export_row_def date_roundtrip time_roundtrip)

lemma parse_export_frame:
  assumes "\<forall>t \<in> set df. valid_date (Date t) \<and> valid_time (Start t) \<and> valid_time (End t)"
  shows "parse_frame (map export_row df) = Some df"
  using assms by (induction df) (simp_all add: parse_export_row)

lemma load_data_failure:
  assumes "json_tasks jd = Some rows" and "rows \<noteq> []" and "parse_frame rows = None"
  shows "load_data jd st
       = (Corrupt,
          \<lparr>tasks = tasks st,
           boss_xp = (case json_boss_xp jd of None \<Rightarrow> 0 | Some x \<Rightarrow> x),
           active_boss = (case json_active_boss jd of None \<Rightarrow> None | Some b \<Rightarrow> b)\<rparr>)"
  using assms by (simp add: load_data_def Let_def)

lemma export_then_load:
  assumes "\<forall>t \<in> set (tasks st).
             valid_date (Date t) \<and> valid_time (Start t) \<and> valid_time (End t)"
    and "active_boss st = None \<or> hp_type = PythonInt"
  shows "\<exists>jd. export_data hp_type st = Inr jd \<and> load_data jd prior = (Loaded, st)"
proof -
  let ?jd = "\<lparr>json_tasks = Some (map export_row (tasks st)),
              json_boss_xp = Some (boss_xp st),
              json_active_boss = Some (active_boss st)\<rparr>"
  have e: "export_data hp_type st = Inr ?jd"
    using assms(2) by (auto simp add: export_data_def)
  have p: "parse_frame (map export_row (tasks st)) = Some (tasks st)"
    using assms(1) by (rule parse_export_frame)
  have "load_data ?jd prior = (Loaded, st)"
  proof (cases "tasks st = []")
    case True
    then show ?thesis
      by (simp add: load_data_def Let_def)
  next
    case False
    with p show ?thesis
      by (simp add: load_data_def Let_def)
  qed
  with e show ?thesis
    by blast
qed

lemma export_data_numpy_hp:
  assumes "active_boss st = Some b"
  shows "export_data NumpyInt64 st = Inl TypeError"
  using assms by (simp add: export_data_def)

text \<open>
  C7. Writing a session with \<open>export_data\<close> and reading the result with \<open>load_data\<close> is to
  give the session back. The code does not get that far once the boss has been hit: after
  \<open>main\<close> has dealt the dragon of 15 HP one hit, the boss has 5 HP held in a
  \<open>numpy.int64\<close>, and \<open>export_data\<close> raises \<open>TypeError\<close> instead of writing a save file.
\<close>

theorem export_data_after_hit_fails:
  "CurrentHP (fst (deal_damage dragon 1)) = 5
   \<and> active_boss (arena_session (fst (deal_damage dragon 1)))
       = Some (fst (deal_damage dragon 1))
   \<and> export_data NumpyInt64 (arena_session (fst (deal_damage dragon 1))) = Inl TypeError"
  by (simp add: export_data_def arena_session_def deal_damage_def Let_def dragon_def
      BOSS_DMG_PER_TASK_def)

theorem export_data_after_hit_fails_witness:
  "isl (export_data NumpyInt64 (arena_session (fst (deal_damage dragon 1))))"
  using export_data_after_hit_fails
  by simp

text \<open>
  C5. A load that fails is to leave tasks, bonus XP and active boss as they were. The
  code does not: on a save file whose task has the date \<open>tomorrow\<close>, loaded into a session
  with 500 bonus XP and a boss in the arena, \<open>load_data\<close> reports the file as corrupt and
  keeps the tasks, but the bonus XP is 0 and the boss is gone, as the file says.
\<close>

theorem load_data_corrupt_partial:
  "date_fromisoformat ''tomorrow'' = None
   \<and> load_data corrupt_save (arena_session dragon)
       = (Corrupt, \<lparr>tasks = [quest_done], boss_xp = 0, active_boss = None\<rparr>)
   \<and> boss_xp (arena_session dragon) = 500
   \<and> active_boss (arena_session dragon) = Some dragon
   \<and> snd (load_data corrupt_save (arena_session dragon)) \<noteq> arena_session dragon"
  by (simp add: load_data_def Let_def corrupt_save_def arena_session_def parse_row_def
      date_fromisoformat_def)

theorem load_data_corrupt_partial_witness:
  "fst (load_data corrupt_save (arena_session dragon)) = Corrupt
   \<and> tasks (snd (load_data corrupt_save (arena_session dragon)))
       = tasks (arena_session dragon)
   \<and> boss_xp (snd (load_data corrupt_save (arena_session dragon)))
       \<noteq> boss_xp (arena_session dragon)
   \<and> active_boss (snd (load_data corrupt_save (arena_session dragon)))
       \<noteq> active_boss (arena_session dragon)"
  using load_data_corrupt_partial
  by (simp add: arena_session_def)

end
